theory Spec2Isabelle
  imports Complex_Main "HOL-Library.Word" "HOL-Library.Signed_Division"
begin

section \<open>Element-wise operations on device buffers (linalg/eltwise.cuh)\<close>

subsection \<open>Device memory, faults and the element type\<close>

text \<open>
  A buffer argument (\<^verbatim>\<open>math_t *out\<close>, \<^verbatim>\<open>const math_t *in\<close>) is a raw address; element
  \<open>i\<close> of the buffer at \<open>p\<close> is the cell \<open>p + i\<close>. Device memory is a store from
  addresses to elements, so that two arguments holding the same address are the same cells.
\<close>

type_synonym addr = nat

type_synonym 'a mem = "addr \<Rightarrow> 'a"

text \<open>
  The one way a per-element function of this file can go wrong: an arithmetic operator of
  the element type applied where C++ leaves its behaviour undefined.
\<close>

datatype fault = UndefinedBehaviour

text \<open>
  The template parameter \<^verbatim>\<open>math_t\<close>, as the operators the lambdas of this file use on it:
  \<^verbatim>\<open>a + b\<close>, \<^verbatim>\<open>a - b\<close>, \<^verbatim>\<open>a * b\<close>, \<^verbatim>\<open>a / b\<close>, \<^verbatim>\<open>b == c\<close> and the conversion
  \<^verbatim>\<open>math_t(0.0)\<close>. Division is the operator whose result the language does not always
  define, so it returns a fault or a value.
\<close>

record 'a math_t =
  op_add :: "'a \<Rightarrow> 'a \<Rightarrow> 'a"
  op_sub :: "'a \<Rightarrow> 'a \<Rightarrow> 'a"
  op_mul :: "'a \<Rightarrow> 'a \<Rightarrow> 'a"
  op_div :: "'a \<Rightarrow> 'a \<Rightarrow> fault + 'a"
  op_eq :: "'a \<Rightarrow> 'a \<Rightarrow> bool"
  zero_lit :: "'a"

text \<open>
  The execution stream is opaque to this file: it is handed on to the primitives. What the
  primitives need of it is the order in which it runs the workers of a launch of \<open>len\<close>
  elements, so a stream is that order.
\<close>

type_synonym cudaStream_t = "nat \<Rightarrow> nat list"

subsection \<open>The primitives of unary-op.cuh and binary-op.cuh\<close>

text \<open>
  Modelled from the spec: the launch that \<^verbatim>\<open>unaryOp\<close> and \<^verbatim>\<open>binaryOp\<close> enqueue, whose
  code (\<^verbatim>\<open>unary_op.cuh\<close>, \<^verbatim>\<open>binary_op.cuh\<close>) is not among the sources. Sections 4.1 and
  5: one independent worker per element index, run by the execution context in an order
  that is not specified. The workers run in the order given, each on the memory the one
  before left; a fault of a worker is the fault of the launch.
\<close>

fun run_workers :: "(nat \<Rightarrow> 'a mem \<Rightarrow> fault + 'a mem) \<Rightarrow> nat list \<Rightarrow> 'a mem \<Rightarrow> fault + 'a mem" where
  "run_workers w [] m = Inr m"
| "run_workers w (i # js) m = (case w i m of Inl e \<Rightarrow> Inl e | Inr m' \<Rightarrow> run_workers w js m')"

text \<open>
  Modelled from the spec: the worker of index \<open>i\<close> of \<^verbatim>\<open>unaryOp\<close>
  (\<^verbatim>\<open>unary_op.cuh\<close>, not among the sources). Section 4.1: it reads \<open>in[i]\<close>, applies
  \<open>f\<close> and writes \<open>out[i]\<close>.
\<close>

definition map_worker :: "('a \<Rightarrow> fault + 'a) \<Rightarrow> addr \<Rightarrow> addr \<Rightarrow> nat \<Rightarrow> 'a mem \<Rightarrow> fault + 'a mem" where
  "map_worker f out inp i m =
     (case f (m (inp + i)) of Inl e \<Rightarrow> Inl e | Inr v \<Rightarrow> Inr (m(out + i := v)))"

text \<open>
  Modelled from the spec: \<^verbatim>\<open>unaryOp\<close> is declared in \<^verbatim>\<open>unary_op.cuh\<close>, which is not
  among the sources. Section 4.1: \<^verbatim>\<open>map(out, in, len, f, stream)\<close> schedules exactly
  \<open>len\<close> independent applications of \<open>f\<close>, one per element index, on the stream given.
  The element count \<open>len\<close> is of the caller's index type and not negative (section 3), so
  it is a natural number.
\<close>

definition unaryOp ::
  "addr \<Rightarrow> addr \<Rightarrow> nat \<Rightarrow> ('a \<Rightarrow> fault + 'a) \<Rightarrow> cudaStream_t \<Rightarrow> 'a mem \<Rightarrow> fault + 'a mem" where
  "unaryOp out inp len f stream m = run_workers (map_worker f out inp) (stream len) m"

text \<open>
  Modelled from the spec: the worker of index \<open>i\<close> of \<^verbatim>\<open>binaryOp\<close>
  (\<^verbatim>\<open>binary_op.cuh\<close>, not among the sources). Section 4.2: the reads of \<open>in1[i]\<close> and
  \<open>in2[i]\<close> precede the write of \<open>out[i]\<close>.
\<close>

definition zip_worker ::
  "('a \<Rightarrow> 'a \<Rightarrow> fault + 'a) \<Rightarrow> addr \<Rightarrow> addr \<Rightarrow> addr \<Rightarrow> nat \<Rightarrow> 'a mem \<Rightarrow> fault + 'a mem" where
  "zip_worker f out in1 in2 i m =
     (case f (m (in1 + i)) (m (in2 + i)) of Inl e \<Rightarrow> Inl e | Inr v \<Rightarrow> Inr (m(out + i := v)))"

text \<open>
  Modelled from the spec: \<^verbatim>\<open>binaryOp\<close> is declared in \<^verbatim>\<open>binary_op.cuh\<close>, which is not
  among the sources. Section 4.2: \<^verbatim>\<open>zip(out, in1, in2, len, f, stream)\<close> has the
  semantics of the map primitive with a two-argument \<open>f\<close>.
\<close>

definition binaryOp ::
  "addr \<Rightarrow> addr \<Rightarrow> addr \<Rightarrow> nat \<Rightarrow> ('a \<Rightarrow> 'a \<Rightarrow> fault + 'a) \<Rightarrow> cudaStream_t \<Rightarrow> 'a mem
     \<Rightarrow> fault + 'a mem" where
  "binaryOp out in1 in2 len f stream m = run_workers (zip_worker f out in1 in2) (stream len) m"

text \<open>
  What section 4.1 asks of the execution context: a launch of \<open>len\<close> elements runs exactly
  \<open>len\<close> workers, one per index below \<open>len\<close>.
\<close>

definition valid_stream :: "cudaStream_t \<Rightarrow> nat \<Rightarrow> bool" where
  "valid_stream stream len \<longleftrightarrow>
     length (stream len) = len \<and> distinct (stream len) \<and> list_all (\<lambda>i. i < len) (stream len)"

text \<open>
  What section 3 asks of the caller's buffers: the output buffer is an input buffer itself
  or shares no cell with it.
\<close>

definition may_alias :: "addr \<Rightarrow> addr \<Rightarrow> nat \<Rightarrow> bool" where
  "may_alias out inp len \<longleftrightarrow> out = inp \<or> out + len \<le> inp \<or> inp + len \<le> out"

subsection \<open>Scalar operations\<close>

text \<open>
  \<^verbatim>\<open>scalarAdd\<close> and \<^verbatim>\<open>scalarMultiply\<close> hand \<^verbatim>\<open>unaryOp\<close> the lambdas
  \<^verbatim>\<open>in + scalar\<close> and \<^verbatim>\<open>in * scalar\<close>, which capture the scalar by value.
\<close>

definition scalarAdd ::
  "'a math_t \<Rightarrow> addr \<Rightarrow> addr \<Rightarrow> 'a \<Rightarrow> nat \<Rightarrow> cudaStream_t \<Rightarrow> 'a mem \<Rightarrow> fault + 'a mem" where
  "scalarAdd T out inp scalar len stream =
     unaryOp out inp len (\<lambda>x. Inr (op_add T x scalar)) stream"

definition scalarMultiply ::
  "'a math_t \<Rightarrow> addr \<Rightarrow> addr \<Rightarrow> 'a \<Rightarrow> nat \<Rightarrow> cudaStream_t \<Rightarrow> 'a mem \<Rightarrow> fault + 'a mem" where
  "scalarMultiply T out inp scalar len stream =
     unaryOp out inp len (\<lambda>x. Inr (op_mul T x scalar)) stream"

subsection \<open>Element-wise binary operations\<close>

text \<open>
  Each wrapper hands \<^verbatim>\<open>binaryOp\<close> its lambda: \<^verbatim>\<open>a + b\<close>, \<^verbatim>\<open>a - b\<close>, \<^verbatim>\<open>a * b\<close>,
  \<^verbatim>\<open>a / b\<close>, and for \<^verbatim>\<open>eltwiseDivideCheckZero\<close> the guarded
  \<^verbatim>\<open>if (b == math_t(0.0)) return math_t(0.0); else return a / b;\<close>.
\<close>

definition eltwiseAdd ::
  "'a math_t \<Rightarrow> addr \<Rightarrow> addr \<Rightarrow> addr \<Rightarrow> nat \<Rightarrow> cudaStream_t \<Rightarrow> 'a mem \<Rightarrow> fault + 'a mem" where
  "eltwiseAdd T out in1 in2 len stream =
     binaryOp out in1 in2 len (\<lambda>a b. Inr (op_add T a b)) stream"

definition eltwiseSub ::
  "'a math_t \<Rightarrow> addr \<Rightarrow> addr \<Rightarrow> addr \<Rightarrow> nat \<Rightarrow> cudaStream_t \<Rightarrow> 'a mem \<Rightarrow> fault + 'a mem" where
  "eltwiseSub T out in1 in2 len stream =
     binaryOp out in1 in2 len (\<lambda>a b. Inr (op_sub T a b)) stream"

definition eltwiseMultiply ::
  "'a math_t \<Rightarrow> addr \<Rightarrow> addr \<Rightarrow> addr \<Rightarrow> nat \<Rightarrow> cudaStream_t \<Rightarrow> 'a mem \<Rightarrow> fault + 'a mem" where
  "eltwiseMultiply T out in1 in2 len stream =
     binaryOp out in1 in2 len (\<lambda>a b. Inr (op_mul T a b)) stream"

definition eltwiseDivide ::
  "'a math_t \<Rightarrow> addr \<Rightarrow> addr \<Rightarrow> addr \<Rightarrow> nat \<Rightarrow> cudaStream_t \<Rightarrow> 'a mem \<Rightarrow> fault + 'a mem" where
  "eltwiseDivide T out in1 in2 len stream =
     binaryOp out in1 in2 len (\<lambda>a b. op_div T a b) stream"

definition eltwiseDivideCheckZero ::
  "'a math_t \<Rightarrow> addr \<Rightarrow> addr \<Rightarrow> addr \<Rightarrow> nat \<Rightarrow> cudaStream_t \<Rightarrow> 'a mem \<Rightarrow> fault + 'a mem" where
  "eltwiseDivideCheckZero T out in1 in2 len stream =
     binaryOp out in1 in2 len
       (\<lambda>a b. if op_eq T b (zero_lit T) then Inr (zero_lit T) else op_div T a b)
       stream"

subsection \<open>Element types\<close>

text \<open>
  \<^verbatim>\<open>math_t = int\<close>: 32-bit two's complement. Addition, subtraction and multiplication
  wrap around, as the device computes them; \<^verbatim>\<open>/\<close> truncates towards zero, and C++ leaves
  it undefined for a zero divisor and for the one quotient that does not fit.
\<close>

definition int32_t :: "32 word math_t" where
  "int32_t =
     \<lparr>op_add = (\<lambda>a b. a + b),
      op_sub = (\<lambda>a b. a - b),
      op_mul = (\<lambda>a b. a * b),
      op_div = (\<lambda>a b. if b = 0 \<or> (a = - (2 ^ 31) \<and> b = - 1) then Inl UndefinedBehaviour
                      else Inr (word_of_int (sint a sdiv sint b))),
      op_eq = (\<lambda>a b. a = b),
      zero_lit = 0\<rparr>"

text \<open>
  \<^verbatim>\<open>math_t = float\<close> or \<^verbatim>\<open>double\<close>, without rounding: a value is a rational number,
  one of the two infinities or not-a-number. IEEE arithmetic computes these results
  wherever the exact one is representable. There is one zero, the positive one. No
  operator is undefined; \<^verbatim>\<open>==\<close> is false on not-a-number.
\<close>

datatype xreal = Num rat | PInf | NInf | NaN

fun xneg :: "xreal \<Rightarrow> xreal" where
  "xneg (Num a) = Num (- a)"
| "xneg PInf = NInf"
| "xneg NInf = PInf"
| "xneg NaN = NaN"

fun xsign :: "rat \<Rightarrow> xreal \<Rightarrow> xreal" where
  "xsign s x = (if s = 0 then NaN else if 0 < s then x else xneg x)"

fun xadd :: "xreal \<Rightarrow> xreal \<Rightarrow> xreal" where
  "xadd (Num a) (Num b) = Num (a + b)"
| "xadd NaN y = NaN"
| "xadd x NaN = NaN"
| "xadd PInf NInf = NaN"
| "xadd NInf PInf = NaN"
| "xadd (Num a) y = y"
| "xadd x y = x"

fun xmul :: "xreal \<Rightarrow> xreal \<Rightarrow> xreal" where
  "xmul (Num a) (Num b) = Num (a * b)"
| "xmul NaN y = NaN"
| "xmul x NaN = NaN"
| "xmul (Num a) y = xsign a y"
| "xmul x (Num b) = xsign b x"
| "xmul PInf y = y"
| "xmul NInf y = xneg y"

fun xdiv :: "xreal \<Rightarrow> xreal \<Rightarrow> xreal" where
  "xdiv (Num a) (Num b) = (if b = 0 then xsign a PInf else Num (a / b))"
| "xdiv NaN y = NaN"
| "xdiv x NaN = NaN"
| "xdiv (Num a) y = Num 0"
| "xdiv x (Num b) = (if 0 \<le> b then x else xneg x)"
| "xdiv x y = NaN"

definition float_t :: "xreal math_t" where
  "float_t =
     \<lparr>op_add = xadd,
      op_sub = (\<lambda>a b. xadd a (xneg b)),
      op_mul = xmul,
      op_div = (\<lambda>a b. Inr (xdiv a b)),
      op_eq = (\<lambda>a b. a \<noteq> NaN \<and> b \<noteq> NaN \<and> a = b),
      zero_lit = Num 0\<rparr>"

subsection \<open>The memory a launch leaves\<close>

text \<open>
  The memory after the workers of the indices in \<open>D\<close> have run on \<open>m\<close>: cell \<open>out + j\<close>
  holds the result of \<open>f\<close> on the elements \<open>j\<close> of the inputs as they were in \<open>m\<close>.
\<close>

definition zip_result ::
  "('a \<Rightarrow> 'a \<Rightarrow> fault + 'a) \<Rightarrow> addr \<Rightarrow> addr \<Rightarrow> addr \<Rightarrow> nat set \<Rightarrow> 'a mem \<Rightarrow> 'a mem" where
  "zip_result f out in1 in2 D m =
     (\<lambda>a. if out \<le> a \<and> a - out \<in> D
          then (case f (m (in1 + (a - out))) (m (in2 + (a - out))) of Inl e \<Rightarrow> m a | Inr v \<Rightarrow> v)
          else m a)"

lemma fault_eq: "(e::fault) = UndefinedBehaviour"
  by (cases e) simp

lemma valid_stream_set: "valid_stream stream len \<Longrightarrow> set (stream len) = {..<len}"
proof -
  assume v: "valid_stream stream len"
  have sub: "set (stream len) \<subseteq> {..<len}"
    using v by (auto simp: valid_stream_def list_all_iff)
  have "card (set (stream len)) = len"
    using v by (simp add: valid_stream_def distinct_card)
  then have "card (set (stream len)) = card {..<len}" by simp
  with sub show ?thesis by (simp add: card_subset_eq)
qed

lemma valid_stream_distinct: "valid_stream stream len \<Longrightarrow> distinct (stream len)"
  by (simp add: valid_stream_def)

lemma zip_result_empty: "zip_result f out in1 in2 {} m = m"
  by (simp add: zip_result_def)

lemma zip_result_input:
  assumes "may_alias out inp len" "D \<subseteq> {..<len}" "i < len" "i \<notin> D"
  shows "zip_result f out in1 in2 D m (inp + i) = m (inp + i)"
  using assms by (auto simp: zip_result_def may_alias_def)

lemma zip_result_insert:
  assumes "f (m (in1 + i)) (m (in2 + i)) = Inr v"
  shows "(zip_result f out in1 in2 D m)(out + i := v) = zip_result f out in1 in2 (insert i D) m"
  using assms by (auto simp: zip_result_def fun_eq_iff)

lemma zip_worker_step:
  assumes "may_alias out in1 len" "may_alias out in2 len" "D \<subseteq> {..<len}" "i < len" "i \<notin> D"
  shows "zip_worker f out in1 in2 i (zip_result f out in1 in2 D m) =
     (case f (m (in1 + i)) (m (in2 + i)) of Inl e \<Rightarrow> Inl e
      | Inr v \<Rightarrow> Inr (zip_result f out in1 in2 (insert i D) m))"
  using assms
  by (simp add: zip_worker_def zip_result_input [where len = len] zip_result_insert split: sum.split)

lemma run_zip_ok:
  assumes "may_alias out in1 len" "may_alias out in2 len"
  shows "distinct js \<Longrightarrow> set js \<inter> D = {} \<Longrightarrow> set js \<union> D \<subseteq> {..<len} \<Longrightarrow>
     (\<forall>j\<in>set js. \<exists>v. f (m (in1 + j)) (m (in2 + j)) = Inr v) \<Longrightarrow>
     run_workers (zip_worker f out in1 in2) js (zip_result f out in1 in2 D m) =
       Inr (zip_result f out in1 in2 (D \<union> set js) m)"
proof (induction js arbitrary: D)
  case Nil
  then show ?case by simp
next
  case (Cons i js)
  from Cons.prems obtain v where v: "f (m (in1 + i)) (m (in2 + i)) = Inr v" by auto
  have i: "i < len" "i \<notin> D" "D \<subseteq> {..<len}" using Cons.prems by auto
  have step: "zip_worker f out in1 in2 i (zip_result f out in1 in2 D m) =
      Inr (zip_result f out in1 in2 (insert i D) m)"
    using zip_worker_step [OF assms i(3) i(1) i(2), of f m] v by simp
  have "run_workers (zip_worker f out in1 in2) js (zip_result f out in1 in2 (insert i D) m) =
       Inr (zip_result f out in1 in2 (insert i D \<union> set js) m)"
    using Cons.prems by (intro Cons.IH) auto
  with step show ?case by simp
qed

lemma run_zip_fault:
  assumes "may_alias out in1 len" "may_alias out in2 len"
  shows "distinct js \<Longrightarrow> set js \<inter> D = {} \<Longrightarrow> set js \<union> D \<subseteq> {..<len} \<Longrightarrow>
     (\<exists>j\<in>set js. \<exists>e. f (m (in1 + j)) (m (in2 + j)) = Inl e) \<Longrightarrow>
     run_workers (zip_worker f out in1 in2) js (zip_result f out in1 in2 D m) =
       Inl UndefinedBehaviour"
proof (induction js arbitrary: D)
  case Nil
  then show ?case by simp
next
  case (Cons i js)
  have i: "i < len" "i \<notin> D" "D \<subseteq> {..<len}" using Cons.prems by auto
  note step = zip_worker_step [OF assms i(3) i(1) i(2), of f m]
  show ?case
  proof (cases "f (m (in1 + i)) (m (in2 + i))")
    case (Inl e)
    with step show ?thesis by (simp add: fault_eq [of e])
  next
    case (Inr v)
    with Cons.prems have "\<exists>j\<in>set js. \<exists>e. f (m (in1 + j)) (m (in2 + j)) = Inl e" by auto
    then have "run_workers (zip_worker f out in1 in2) js (zip_result f out in1 in2 (insert i D) m) =
       Inl UndefinedBehaviour"
      using Cons.prems by (intro Cons.IH) auto
    with step Inr show ?thesis by simp
  qed
qed

lemma binaryOp_ok:
  assumes "valid_stream stream len" "may_alias out in1 len" "may_alias out in2 len"
    and "\<forall>j<len. \<exists>v. f (m (in1 + j)) (m (in2 + j)) = Inr v"
  shows "binaryOp out in1 in2 len f stream m = Inr (zip_result f out in1 in2 {..<len} m)"
  using run_zip_ok [OF assms(2,3), of "stream len" "{}" f m] assms(1,4)
  by (simp add: binaryOp_def zip_result_empty valid_stream_set valid_stream_distinct)

lemma binaryOp_fault:
  assumes "valid_stream stream len" "may_alias out in1 len" "may_alias out in2 len"
    and "j < len" "f (m (in1 + j)) (m (in2 + j)) = Inl e"
  shows "binaryOp out in1 in2 len f stream m = Inl UndefinedBehaviour"
  using run_zip_fault [OF assms(2,3), of "stream len" "{}" f m] assms(1,4,5)
  by (auto simp: binaryOp_def zip_result_empty valid_stream_set valid_stream_distinct)

lemma map_worker_zip_worker: "map_worker f out inp = zip_worker (\<lambda>a _. f a) out inp inp"
  by (simp add: map_worker_def zip_worker_def fun_eq_iff)

lemma unaryOp_binaryOp:
  "unaryOp out inp len f stream = binaryOp out inp inp len (\<lambda>a _. f a) stream"
  by (simp add: unaryOp_def binaryOp_def map_worker_zip_worker fun_eq_iff)

lemma zip_result_at:
  assumes "i < len" "f (m (in1 + i)) (m (in2 + i)) = Inr v"
  shows "zip_result f out in1 in2 {..<len} m (out + i) = v"
  using assms by (simp add: zip_result_def)

lemma zip_result_frame:
  assumes "a < out \<or> out + len \<le> a"
  shows "zip_result f out in1 in2 {..<len} m a = m a"
  using assms by (auto simp: zip_result_def)

lemma binaryOp_total:
  assumes "valid_stream stream len" "may_alias out in1 len" "may_alias out in2 len"
    and "i < len"
  shows "\<exists>m'. binaryOp out in1 in2 len (\<lambda>a b. Inr (g a b)) stream m = Inr m' \<and>
           m' (out + i) = g (m (in1 + i)) (m (in2 + i)) \<and>
           (\<forall>a. a < out \<or> out + len \<le> a \<longrightarrow> m' a = m a)"
  using binaryOp_ok [OF assms(1,2,3), of "\<lambda>a b. Inr (g a b)" m] assms(4)
  by (simp add: zip_result_at zip_result_frame)

lemma binaryOp_partial:
  assumes "valid_stream stream len" "may_alias out in1 len" "may_alias out in2 len"
    and "i < len" and "\<forall>j<len. \<exists>v. f (m (in1 + j)) (m (in2 + j)) = Inr v"
  shows "\<exists>m'. binaryOp out in1 in2 len f stream m = Inr m' \<and>
           Inr (m' (out + i)) = f (m (in1 + i)) (m (in2 + i))"
proof -
  from assms(4,5) obtain v where v: "f (m (in1 + i)) (m (in2 + i)) = Inr v" by auto
  show ?thesis
    using binaryOp_ok [OF assms(1,2,3,5)] zip_result_at [of i len f m in1 in2 v out] assms(4) v
    by simp
qed

subsection \<open>Every binary operation computes its function at every index\<close>

text \<open>
  C1: for input buffers \<open>in1\<close> and \<open>in2\<close> of length \<open>len\<close> and each of eltwiseAdd,
  eltwiseSub, eltwiseMultiply, eltwiseDivide and eltwiseDivideCheckZero, the launch
  completes and \<open>out[i]\<close> is the operation's per-element function applied to \<open>in1[i]\<close>
  and \<open>in2[i]\<close> as they were before the call, for every \<open>i < len\<close>. The buffers are as
  section 3 of the specification requires them (the output is an input or apart from it),
  and for the two divisions the quotients the launch computes are defined.
\<close>

theorem binary_ops_elementwise:
  assumes "valid_stream stream len" "may_alias out in1 len" "may_alias out in2 len"
    and "i < len"
  shows "(\<exists>m'. eltwiseAdd T out in1 in2 len stream m = Inr m' \<and>
            m' (out + i) = op_add T (m (in1 + i)) (m (in2 + i))) \<and>
         (\<exists>m'. eltwiseSub T out in1 in2 len stream m = Inr m' \<and>
            m' (out + i) = op_sub T (m (in1 + i)) (m (in2 + i))) \<and>
         (\<exists>m'. eltwiseMultiply T out in1 in2 len stream m = Inr m' \<and>
            m' (out + i) = op_mul T (m (in1 + i)) (m (in2 + i))) \<and>
         ((\<forall>j<len. \<exists>q. op_div T (m (in1 + j)) (m (in2 + j)) = Inr q) \<longrightarrow>
          (\<exists>m'. eltwiseDivide T out in1 in2 len stream m = Inr m' \<and>
            Inr (m' (out + i)) = op_div T (m (in1 + i)) (m (in2 + i)))) \<and>
         ((\<forall>j<len. \<not> op_eq T (m (in2 + j)) (zero_lit T) \<longrightarrow>
              (\<exists>q. op_div T (m (in1 + j)) (m (in2 + j)) = Inr q)) \<longrightarrow>
          (\<exists>m'. eltwiseDivideCheckZero T out in1 in2 len stream m = Inr m' \<and>
            Inr (m' (out + i)) =
              (if op_eq T (m (in2 + i)) (zero_lit T) then Inr (zero_lit T)
               else op_div T (m (in1 + i)) (m (in2 + i)))))"
proof (intro conjI impI)
  show "\<exists>m'. eltwiseAdd T out in1 in2 len stream m = Inr m' \<and>
            m' (out + i) = op_add T (m (in1 + i)) (m (in2 + i))"
    unfolding eltwiseAdd_def using binaryOp_total [OF assms, of "op_add T" m] by blast
  show "\<exists>m'. eltwiseSub T out in1 in2 len stream m = Inr m' \<and>
            m' (out + i) = op_sub T (m (in1 + i)) (m (in2 + i))"
    unfolding eltwiseSub_def using binaryOp_total [OF assms, of "op_sub T" m] by blast
  show "\<exists>m'. eltwiseMultiply T out in1 in2 len stream m = Inr m' \<and>
            m' (out + i) = op_mul T (m (in1 + i)) (m (in2 + i))"
    unfolding eltwiseMultiply_def using binaryOp_total [OF assms, of "op_mul T" m] by blast
next
  assume "\<forall>j<len. \<exists>q. op_div T (m (in1 + j)) (m (in2 + j)) = Inr q"
  then show "\<exists>m'. eltwiseDivide T out in1 in2 len stream m = Inr m' \<and>
            Inr (m' (out + i)) = op_div T (m (in1 + i)) (m (in2 + i))"
    unfolding eltwiseDivide_def using binaryOp_partial [OF assms, of "op_div T" m] by blast
next
  let ?f = "\<lambda>a b. if op_eq T b (zero_lit T) then Inr (zero_lit T) else op_div T a b"
  assume "\<forall>j<len. \<not> op_eq T (m (in2 + j)) (zero_lit T) \<longrightarrow>
              (\<exists>q. op_div T (m (in1 + j)) (m (in2 + j)) = Inr q)"
  then have "\<forall>j<len. \<exists>v. ?f (m (in1 + j)) (m (in2 + j)) = Inr v" by simp
  from binaryOp_partial [OF assms this]
  show "\<exists>m'. eltwiseDivideCheckZero T out in1 in2 len stream m = Inr m' \<and>
            Inr (m' (out + i)) =
              (if op_eq T (m (in2 + i)) (zero_lit T) then Inr (zero_lit T)
               else op_div T (m (in1 + i)) (m (in2 + i)))"
    unfolding eltwiseDivideCheckZero_def by simp
qed


theorem binary_ops_elementwise_witness:
  "valid_stream (\<lambda>n. rev [0..<n]) 2 \<and> may_alias 4 0 2 \<and> may_alias 4 2 2 \<and> (1::nat) < 2 \<and>
   (\<exists>m'. eltwiseAdd int32_t 4 0 2 2 (\<lambda>n. rev [0..<n])
            ((\<lambda>a. 1)(0 := 7, 1 := 6, 2 := 2, 3 := 3)) = Inr m' \<and> m' 5 = 9) \<and>
   (\<exists>m'. eltwiseSub int32_t 4 0 2 2 (\<lambda>n. rev [0..<n])
            ((\<lambda>a. 1)(0 := 7, 1 := 6, 2 := 2, 3 := 3)) = Inr m' \<and> m' 5 = 3) \<and>
   (\<exists>m'. eltwiseMultiply int32_t 4 0 2 2 (\<lambda>n. rev [0..<n])
            ((\<lambda>a. 1)(0 := 7, 1 := 6, 2 := 2, 3 := 3)) = Inr m' \<and> m' 5 = 18) \<and>
   (\<exists>m'. eltwiseDivide int32_t 4 0 2 2 (\<lambda>n. rev [0..<n])
            ((\<lambda>a. 1)(0 := 7, 1 := 6, 2 := 2, 3 := 3)) = Inr m' \<and> m' 5 = 2) \<and>
   (\<exists>m'. eltwiseDivideCheckZero int32_t 4 0 2 2 (\<lambda>n. rev [0..<n])
            ((\<lambda>a. 1)(0 := 7, 1 := 6, 2 := 2, 3 := 3)) = Inr m' \<and> m' 5 = 2)"
proof -
  let ?s = "\<lambda>n::nat. rev [0..<n]"
  let ?m = "(\<lambda>a. 1)(0 := 7, 1 := 6, 2 := 2, 3 := 3) :: 32 word mem"
  have h1: "valid_stream ?s 2" by (simp add: valid_stream_def list_all_iff)
  have h2: "may_alias 4 0 2" by (simp add: may_alias_def)
  have h3: "may_alias 4 2 2" by (simp add: may_alias_def)
  have h4: "(1::nat) < 2" by simp
  have two: "j = 0 \<or> j = 1" if "j < 2" for j :: nat using that by arith
  have d: "\<forall>j<2. \<exists>q. op_div int32_t (?m (0 + j)) (?m (2 + j)) = Inr q"
    using two by (auto simp: int32_t_def)
  then have z: "\<forall>j<2. \<not> op_eq int32_t (?m (2 + j)) (zero_lit int32_t) \<longrightarrow>
      (\<exists>q. op_div int32_t (?m (0 + j)) (?m (2 + j)) = Inr q)" by blast
  have q: "word_of_int (sint (6::32 word) sdiv sint (3::32 word)) = (2::32 word)"
    by (simp add: signed_divide_int_def)
  from binary_ops_elementwise [OF h1 h2 h3 h4, of int32_t ?m] d z h1 h2 h3 h4
  show ?thesis by (simp add: int32_t_def q)
qed

subsection \<open>The zero guard of eltwiseDivideCheckZero\<close>

text \<open>
  C2: eltwiseDivideCheckZero writes \<open>0\<close> (\<^verbatim>\<open>math_t(0.0)\<close>) at every index whose divisor
  compares equal to it, and the native quotient \<open>a[i] / b[i]\<close> at every other index, where
  a completed eltwiseDivide holds the same value. On \<open>in1 = [1,2,3,4]\<close> and
  \<open>in2 = [0,1,2,0]\<close> of a floating type the output is \<open>[0, 2, 1.5, 0]\<close>.
\<close>

theorem divide_check_zero_guard:
  assumes "valid_stream stream len" "may_alias out in1 len" "may_alias out in2 len"
    and "i < len"
    and "\<forall>j<len. \<not> op_eq T (m (in2 + j)) (zero_lit T) \<longrightarrow>
           (\<exists>q. op_div T (m (in1 + j)) (m (in2 + j)) = Inr q)"
  shows "(\<exists>m'. eltwiseDivideCheckZero T out in1 in2 len stream m = Inr m' \<and>
            (op_eq T (m (in2 + i)) (zero_lit T) \<longrightarrow> m' (out + i) = zero_lit T) \<and>
            (\<not> op_eq T (m (in2 + i)) (zero_lit T) \<longrightarrow>
               Inr (m' (out + i)) = op_div T (m (in1 + i)) (m (in2 + i)) \<and>
               (\<forall>d. eltwiseDivide T out in1 in2 len stream m = Inr d \<longrightarrow>
                  d (out + i) = m' (out + i)) \<and>
               ((\<forall>j<len. \<exists>q. op_div T (m (in1 + j)) (m (in2 + j)) = Inr q) \<longrightarrow>
                  (\<exists>d. eltwiseDivide T out in1 in2 len stream m = Inr d)))) \<and>
         (valid_stream stream 4 \<and> may_alias out in1 4 \<and> may_alias out in2 4 \<and>
          map (\<lambda>j. mf (in1 + j)) [0, 1, 2, 3] = [Num 1, Num 2, Num 3, Num 4] \<and>
          map (\<lambda>j. mf (in2 + j)) [0, 1, 2, 3] = [Num 0, Num 1, Num 2, Num 0] \<longrightarrow>
          (\<exists>m'. eltwiseDivideCheckZero float_t out in1 in2 4 stream mf = Inr m' \<and>
             map (\<lambda>j. m' (out + j)) [0, 1, 2, 3] = [Num 0, Num 2, Num (3 / 2), Num 0]))"
proof (intro conjI impI)
  let ?f = "\<lambda>a b. if op_eq T b (zero_lit T) then Inr (zero_lit T) else op_div T a b"
  let ?m' = "zip_result ?f out in1 in2 {..<len} m"
  have ok: "\<forall>j<len. \<exists>v. ?f (m (in1 + j)) (m (in2 + j)) = Inr v"
    using assms(5) by simp
  have run: "eltwiseDivideCheckZero T out in1 in2 len stream m = Inr ?m'"
    unfolding eltwiseDivideCheckZero_def by (rule binaryOp_ok [OF assms(1,2,3) ok])
  have zero: "op_eq T (m (in2 + i)) (zero_lit T) \<longrightarrow> ?m' (out + i) = zero_lit T"
    using assms(4) by (simp add: zip_result_def)
  have quot: "Inr (?m' (out + i)) = op_div T (m (in1 + i)) (m (in2 + i))"
    if nz: "\<not> op_eq T (m (in2 + i)) (zero_lit T)"
  proof -
    from assms(4,5) nz obtain q where q: "op_div T (m (in1 + i)) (m (in2 + i)) = Inr q" by auto
    with nz assms(4) show ?thesis by (simp add: zip_result_def)
  qed
  have same: "d (out + i) = ?m' (out + i)"
    if nz: "\<not> op_eq T (m (in2 + i)) (zero_lit T)"
      and d: "eltwiseDivide T out in1 in2 len stream m = Inr d" for d
  proof -
    have all: "\<forall>j<len. \<exists>v. op_div T (m (in1 + j)) (m (in2 + j)) = Inr v"
    proof (intro allI impI)
      fix j assume j: "j < len"
      show "\<exists>v. op_div T (m (in1 + j)) (m (in2 + j)) = Inr v"
      proof (cases "op_div T (m (in1 + j)) (m (in2 + j))")
        case (Inl e)
        from binaryOp_fault [OF assms(1,2,3) j, of "op_div T" m e] Inl d
        show ?thesis by (simp add: eltwiseDivide_def)
      next
        case (Inr v)
        then show ?thesis by blast
      qed
    qed
    from assms(4) all obtain q where q: "op_div T (m (in1 + i)) (m (in2 + i)) = Inr q" by auto
    have "d = zip_result (op_div T) out in1 in2 {..<len} m"
      using binaryOp_ok [OF assms(1,2,3) all] d by (simp add: eltwiseDivide_def)
    then have "d (out + i) = q"
      using zip_result_at [of i len "op_div T" m in1 in2 q out] assms(4) q by simp
    with quot [OF nz] q show ?thesis by simp
  qed
  have ret: "\<exists>d. eltwiseDivide T out in1 in2 len stream m = Inr d"
    if "\<forall>j<len. \<exists>q. op_div T (m (in1 + j)) (m (in2 + j)) = Inr q"
    unfolding eltwiseDivide_def using binaryOp_ok [OF assms(1,2,3) that] by simp
  from run zero quot same ret
  show "\<exists>m'. eltwiseDivideCheckZero T out in1 in2 len stream m = Inr m' \<and>
            (op_eq T (m (in2 + i)) (zero_lit T) \<longrightarrow> m' (out + i) = zero_lit T) \<and>
            (\<not> op_eq T (m (in2 + i)) (zero_lit T) \<longrightarrow>
               Inr (m' (out + i)) = op_div T (m (in1 + i)) (m (in2 + i)) \<and>
               (\<forall>d. eltwiseDivide T out in1 in2 len stream m = Inr d \<longrightarrow>
                  d (out + i) = m' (out + i)) \<and>
               ((\<forall>j<len. \<exists>q. op_div T (m (in1 + j)) (m (in2 + j)) = Inr q) \<longrightarrow>
                  (\<exists>d. eltwiseDivide T out in1 in2 len stream m = Inr d)))"
    by blast
next
  let ?g = "\<lambda>a b. if op_eq float_t b (zero_lit float_t) then Inr (zero_lit float_t)
                   else op_div float_t a b"
  assume h: "valid_stream stream 4 \<and> may_alias out in1 4 \<and> may_alias out in2 4 \<and>
          map (\<lambda>j. mf (in1 + j)) [0, 1, 2, 3] = [Num 1, Num 2, Num 3, Num 4] \<and>
          map (\<lambda>j. mf (in2 + j)) [0, 1, 2, 3] = [Num 0, Num 1, Num 2, Num 0]"
  have ok: "\<forall>j<4. \<exists>v. ?g (mf (in1 + j)) (mf (in2 + j)) = Inr v"
    by (simp add: float_t_def)
  have run: "eltwiseDivideCheckZero float_t out in1 in2 4 stream mf =
      Inr (zip_result ?g out in1 in2 {..<4} mf)"
    unfolding eltwiseDivideCheckZero_def using h by (intro binaryOp_ok ok) simp_all
  have "map (\<lambda>j. zip_result ?g out in1 in2 {..<4} mf (out + j)) [0, 1, 2, 3] =
      [Num 0, Num 2, Num (3 / 2), Num 0]"
    using h by (simp add: zip_result_def float_t_def)
  with run show "\<exists>m'. eltwiseDivideCheckZero float_t out in1 in2 4 stream mf = Inr m' \<and>
             map (\<lambda>j. m' (out + j)) [0, 1, 2, 3] = [Num 0, Num 2, Num (3 / 2), Num 0]"
    by (intro exI [of _ "zip_result ?g out in1 in2 {..<4} mf"] conjI)
qed

theorem divide_check_zero_guard_witness:
  "valid_stream (\<lambda>n. rev [0..<n]) 2 \<and> may_alias 4 0 2 \<and> may_alias 4 2 2 \<and> (1::nat) < 2 \<and>
   (\<exists>m'. eltwiseDivideCheckZero int32_t 4 0 2 2 (\<lambda>n. rev [0..<n])
            ((\<lambda>a. 1)(0 := 7, 1 := 6, 2 := 0, 3 := 3)) = Inr m' \<and> m' 4 = 0) \<and>
   (\<exists>m'. eltwiseDivideCheckZero int32_t 4 0 2 2 (\<lambda>n. rev [0..<n])
            ((\<lambda>a. 1)(0 := 7, 1 := 6, 2 := 0, 3 := 3)) = Inr m' \<and> m' 5 = 2) \<and>
   (\<exists>m'. eltwiseDivideCheckZero float_t 8 0 4 4 (\<lambda>n. rev [0..<n])
            ((\<lambda>a. Num 0)(0 := Num 1, 1 := Num 2, 2 := Num 3, 3 := Num 4,
                            5 := Num 1, 6 := Num 2)) = Inr m' \<and>
          m' 8 = Num 0 \<and> m' 9 = Num 2 \<and> m' 10 = Num (3 / 2) \<and> m' 11 = Num 0) \<and>
   (\<exists>d. eltwiseDivide float_t 8 0 4 4 (\<lambda>n. rev [0..<n])
            ((\<lambda>a. Num 0)(0 := Num 1, 1 := Num 2, 2 := Num 3, 3 := Num 4,
                            5 := Num 1, 6 := Num 2)) = Inr d \<and> d 9 = Num 2)"
proof -
  let ?s = "\<lambda>n::nat. rev [0..<n]"
  let ?m = "(\<lambda>a. 1)(0 := 7, 1 := 6, 2 := 0, 3 := 3) :: 32 word mem"
  let ?mf = "(\<lambda>a. Num 0)(0 := Num 1, 1 := Num 2, 2 := Num 3, 3 := Num 4,
                            5 := Num 1, 6 := Num 2) :: xreal mem"
  have h1: "valid_stream ?s 2" by (simp add: valid_stream_def list_all_iff)
  have h2: "may_alias 4 0 2" by (simp add: may_alias_def)
  have h3: "may_alias 4 2 2" by (simp add: may_alias_def)
  have h4: "(0::nat) < 2" "(1::nat) < 2" by simp_all
  have two: "j = 0 \<or> j = 1" if "j < 2" for j :: nat using that by arith
  have h5: "\<forall>j<2. \<not> op_eq int32_t (?m (2 + j)) (zero_lit int32_t) \<longrightarrow>
      (\<exists>q. op_div int32_t (?m (0 + j)) (?m (2 + j)) = Inr q)"
    using two by (auto simp: int32_t_def)
  have f1: "valid_stream ?s 4" by (simp add: valid_stream_def list_all_iff)
  have f2: "may_alias 8 0 4" by (simp add: may_alias_def)
  have f3: "may_alias 8 4 4" by (simp add: may_alias_def)
  have f4: "(1::nat) < 4" by simp
  have f5: "\<forall>j<4. \<not> op_eq float_t (?mf (4 + j)) (zero_lit float_t) \<longrightarrow>
      (\<exists>q. op_div float_t (?mf (0 + j)) (?mf (4 + j)) = Inr q)"
    by (simp add: float_t_def)
  have q: "word_of_int (sint (6::32 word) sdiv sint (3::32 word)) = (2::32 word)"
    by (simp add: signed_divide_int_def)
  have a: "\<exists>m'. eltwiseDivideCheckZero int32_t 4 0 2 2 ?s ?m = Inr m' \<and> m' 4 = 0"
    using divide_check_zero_guard [where T = int32_t and m = ?m, OF h1 h2 h3 h4(1) h5, THEN conjunct1]
    by (simp add: int32_t_def)
  have b: "\<exists>m'. eltwiseDivideCheckZero int32_t 4 0 2 2 ?s ?m = Inr m' \<and> m' 5 = 2"
    using divide_check_zero_guard [where T = int32_t and m = ?m, OF h1 h2 h3 h4(2) h5, THEN conjunct1]
    by (simp add: int32_t_def q) blast
  have c: "\<exists>m'. eltwiseDivideCheckZero float_t 8 0 4 4 ?s ?mf = Inr m' \<and>
          m' 8 = Num 0 \<and> m' 9 = Num 2 \<and> m' 10 = Num (3 / 2) \<and> m' 11 = Num 0"
    using divide_check_zero_guard [where T = float_t and m = ?mf and mf = ?mf, OF f1 f2 f3 f4 f5, THEN conjunct2] f1 f2 f3
    by simp
  have g: "\<forall>j<4. \<exists>q. op_div float_t (?mf (0 + j)) (?mf (4 + j)) = Inr q"
    by (simp add: float_t_def)
  have nz: "\<not> op_eq float_t (?mf (4 + 1)) (zero_lit float_t)"
    by (simp add: float_t_def)
  from divide_check_zero_guard [where T = float_t and m = ?mf and mf = ?mf,
      OF f1 f2 f3 f4 f5, THEN conjunct1] nz g
  obtain m' d where m': "eltwiseDivideCheckZero float_t 8 0 4 4 ?s ?mf = Inr m'"
    and d: "eltwiseDivide float_t 8 0 4 4 ?s ?mf = Inr d" "d (8 + 1) = m' (8 + 1)"
    by blast
  from c m' have "m' 9 = Num 2" by auto
  with d have e: "\<exists>d. eltwiseDivide float_t 8 0 4 4 ?s ?mf = Inr d \<and> d 9 = Num 2"
    by simp
  from h1 h2 h3 h4(2) a b c e show ?thesis by simp
qed

subsection \<open>Scalar operations\<close>

lemma unaryOp_total:
  assumes "valid_stream stream len" "may_alias out inp len" "i < len"
  shows "\<exists>m'. unaryOp out inp len (\<lambda>x. Inr (g x)) stream m = Inr m' \<and>
           m' (out + i) = g (m (inp + i)) \<and>
           (\<forall>a. a < out \<or> out + len \<le> a \<longrightarrow> m' a = m a)"
  using binaryOp_total [OF assms(1,2,2,3), of "\<lambda>a _. g a" m]
  by (simp add: unaryOp_binaryOp)

text \<open>
  C3: for an input buffer of length \<open>len\<close> and a scalar \<open>s\<close>, scalarAdd completes with
  \<open>out[i] = in[i] + s\<close> and scalarMultiply with \<open>out[i] = in[i] * s\<close>, at every index
  \<open>i < len\<close>, the input read as it was before the call.
\<close>

theorem scalar_ops_elementwise:
  assumes "valid_stream stream len" "may_alias out inp len" "i < len"
  shows "(\<exists>m'. scalarAdd T out inp s len stream m = Inr m' \<and>
            m' (out + i) = op_add T (m (inp + i)) s) \<and>
         (\<exists>m'. scalarMultiply T out inp s len stream m = Inr m' \<and>
            m' (out + i) = op_mul T (m (inp + i)) s)"
proof
  show "\<exists>m'. scalarAdd T out inp s len stream m = Inr m' \<and>
            m' (out + i) = op_add T (m (inp + i)) s"
    unfolding scalarAdd_def using unaryOp_total [OF assms, of "\<lambda>x. op_add T x s" m] by blast
  show "\<exists>m'. scalarMultiply T out inp s len stream m = Inr m' \<and>
            m' (out + i) = op_mul T (m (inp + i)) s"
    unfolding scalarMultiply_def using unaryOp_total [OF assms, of "\<lambda>x. op_mul T x s" m] by blast
qed

theorem scalar_ops_elementwise_witness:
  "valid_stream (\<lambda>n. rev [0..<n]) 3 \<and> may_alias 4 4 3 \<and> (2::nat) < 3 \<and>
   (\<exists>m'. scalarAdd int32_t 4 4 10 3 (\<lambda>n. rev [0..<n]) ((\<lambda>a. 1)(4 := 7, 5 := 6, 6 := 5)) = Inr m' \<and>
      m' 6 = 15) \<and>
   (\<exists>m'. scalarMultiply int32_t 4 4 10 3 (\<lambda>n. rev [0..<n]) ((\<lambda>a. 1)(4 := 7, 5 := 6, 6 := 5)) = Inr m' \<and>
      m' 6 = 50)"
proof -
  have h1: "valid_stream (\<lambda>n. rev [0..<n]) 3" by (simp add: valid_stream_def list_all_iff)
  have h2: "may_alias 4 4 3" by (simp add: may_alias_def)
  have h3: "(2::nat) < 3" by simp
  from scalar_ops_elementwise [OF h1 h2 h3, of int32_t 10 "(\<lambda>a. 1)(4 := 7, 5 := 6, 6 := 5)"] h1 h2
  show ?thesis by (simp add: int32_t_def)
qed

subsection \<open>eltwiseDivide has no guard\<close>

lemma xdiv_zero: "xdiv x (Num 0) \<in> {PInf, NInf, NaN}"
  by (cases x) simp_all

text \<open>
  C4: eltwiseDivide applies the native division of the element type at every index and
  treats no divisor specially. Where every quotient of the launch is defined, \<open>out[i]\<close> is
  the native quotient, also at an index whose divisor is zero: for a floating type that is
  an infinity or not-a-number. Where some quotient is undefined, the whole call is
  undefined behaviour, neither checked nor replaced by a value: for \<^verbatim>\<open>int\<close> that is so as
  soon as one divisor is zero.
\<close>

theorem divide_native_unguarded:
  assumes "valid_stream stream len" "may_alias out in1 len" "may_alias out in2 len"
    and "i < len"
  shows "((\<forall>j<len. \<exists>q. op_div T (m (in1 + j)) (m (in2 + j)) = Inr q) \<longrightarrow>
          (\<exists>m'. eltwiseDivide T out in1 in2 len stream m = Inr m' \<and>
             Inr (m' (out + i)) = op_div T (m (in1 + i)) (m (in2 + i)))) \<and>
         ((\<exists>j<len. \<exists>e. op_div T (m (in1 + j)) (m (in2 + j)) = Inl e) \<longrightarrow>
          eltwiseDivide T out in1 in2 len stream m = Inl UndefinedBehaviour) \<and>
         (mi (in2 + i) = 0 \<longrightarrow>
          eltwiseDivide int32_t out in1 in2 len stream mi = Inl UndefinedBehaviour) \<and>
         (mf (in2 + i) = Num 0 \<longrightarrow>
          (\<exists>m'. eltwiseDivide float_t out in1 in2 len stream mf = Inr m' \<and>
             m' (out + i) = xdiv (mf (in1 + i)) (Num 0) \<and>
             m' (out + i) \<in> {PInf, NInf, NaN}))"
proof (intro conjI impI)
  assume "\<forall>j<len. \<exists>q. op_div T (m (in1 + j)) (m (in2 + j)) = Inr q"
  then show "\<exists>m'. eltwiseDivide T out in1 in2 len stream m = Inr m' \<and>
             Inr (m' (out + i)) = op_div T (m (in1 + i)) (m (in2 + i))"
    unfolding eltwiseDivide_def using binaryOp_partial [OF assms, of "op_div T" m] by blast
next
  assume "\<exists>j<len. \<exists>e. op_div T (m (in1 + j)) (m (in2 + j)) = Inl e"
  then obtain j e where "j < len" "op_div T (m (in1 + j)) (m (in2 + j)) = Inl e" by blast
  then show "eltwiseDivide T out in1 in2 len stream m = Inl UndefinedBehaviour"
    unfolding eltwiseDivide_def by (rule binaryOp_fault [OF assms(1,2,3)])
next
  assume "mi (in2 + i) = 0"
  then have "op_div int32_t (mi (in1 + i)) (mi (in2 + i)) = Inl UndefinedBehaviour"
    by (simp add: int32_t_def)
  then show "eltwiseDivide int32_t out in1 in2 len stream mi = Inl UndefinedBehaviour"
    unfolding eltwiseDivide_def by (rule binaryOp_fault [OF assms])
next
  assume z: "mf (in2 + i) = Num 0"
  have "\<forall>j<len. \<exists>q. op_div float_t (mf (in1 + j)) (mf (in2 + j)) = Inr q"
    by (simp add: float_t_def)
  from binaryOp_partial [OF assms this]
  obtain m' where m': "eltwiseDivide float_t out in1 in2 len stream mf = Inr m'"
      "Inr (m' (out + i)) = op_div float_t (mf (in1 + i)) (mf (in2 + i))"
    unfolding eltwiseDivide_def by blast
  from m'(2) z have "m' (out + i) = xdiv (mf (in1 + i)) (Num 0)"
    by (simp add: float_t_def)
  with m'(1) xdiv_zero [of "mf (in1 + i)"]
  show "\<exists>m'. eltwiseDivide float_t out in1 in2 len stream mf = Inr m' \<and>
             m' (out + i) = xdiv (mf (in1 + i)) (Num 0) \<and>
             m' (out + i) \<in> {PInf, NInf, NaN}"
    by simp
qed

theorem divide_native_unguarded_witness:
  "valid_stream (\<lambda>n. rev [0..<n]) 2 \<and> may_alias 4 0 2 \<and> may_alias 4 2 2 \<and> (1::nat) < 2 \<and>
   (\<exists>m'. eltwiseDivide int32_t 4 0 2 2 (\<lambda>n. rev [0..<n])
            ((\<lambda>a. 1)(0 := 7, 1 := 6, 2 := 2, 3 := 3)) = Inr m' \<and> m' 5 = 2) \<and>
   eltwiseDivide int32_t 4 0 2 2 (\<lambda>n. rev [0..<n])
            ((\<lambda>a. 1)(0 := 7, 1 := 6, 2 := 2, 3 := 0)) = Inl UndefinedBehaviour \<and>
   (\<exists>m'. eltwiseDivide float_t 4 0 2 2 (\<lambda>n. rev [0..<n])
            ((\<lambda>a. Num 1)(0 := Num 7, 1 := Num 6, 2 := Num 2, 3 := Num 0)) = Inr m' \<and>
          m' 5 = PInf)"
proof -
  let ?s = "\<lambda>n::nat. rev [0..<n]"
  let ?m = "(\<lambda>a. 1)(0 := 7, 1 := 6, 2 := 2, 3 := 3) :: 32 word mem"
  let ?mi = "(\<lambda>a. 1)(0 := 7, 1 := 6, 2 := 2, 3 := 0) :: 32 word mem"
  let ?mf = "(\<lambda>a. Num 1)(0 := Num 7, 1 := Num 6, 2 := Num 2, 3 := Num 0) :: xreal mem"
  have h1: "valid_stream ?s 2" by (simp add: valid_stream_def list_all_iff)
  have h2: "may_alias 4 0 2" by (simp add: may_alias_def)
  have h3: "may_alias 4 2 2" by (simp add: may_alias_def)
  have h4: "(1::nat) < 2" by simp
  have two: "j = 0 \<or> j = 1" if "j < 2" for j :: nat using that by arith
  have d: "\<forall>j<2. \<exists>q. op_div int32_t (?m (0 + j)) (?m (2 + j)) = Inr q"
    using two by (auto simp: int32_t_def)
  have q: "word_of_int (sint (6::32 word) sdiv sint (3::32 word)) = (2::32 word)"
    by (simp add: signed_divide_int_def)
  note w = divide_native_unguarded [where T = int32_t and m = ?m and mi = ?mi and mf = ?mf,
      OF h1 h2 h3 h4]
  have a: "\<exists>m'. eltwiseDivide int32_t 4 0 2 2 ?s ?m = Inr m' \<and> m' 5 = 2"
    using w [THEN conjunct1] d by (simp add: int32_t_def q)
  have b: "eltwiseDivide int32_t 4 0 2 2 ?s ?mi = Inl UndefinedBehaviour"
    using w [THEN conjunct2, THEN conjunct2, THEN conjunct1] by simp
  have c: "\<exists>m'. eltwiseDivide float_t 4 0 2 2 ?s ?mf = Inr m' \<and> m' 5 = PInf"
    using w [THEN conjunct2, THEN conjunct2, THEN conjunct2] by simp blast
  from h1 h2 h3 h4 a b c show ?thesis by simp
qed

subsection \<open>The output buffer as both inputs\<close>

text \<open>
  C6: with the output buffer the same as both input buffers,
  \<open>eltwiseMultiply(a, a, a, len, stream)\<close> completes with \<open>a[i]\<close> the square of the value
  \<open>a[i]\<close> held before the call, at every index \<open>i < len\<close>: the worker of an index reads
  its inputs before it writes, and no other worker writes its cell.
\<close>

theorem multiply_in_place_squares:
  assumes "valid_stream stream len" "i < len"
  shows "\<exists>m'. eltwiseMultiply T a a a len stream m = Inr m' \<and>
           m' (a + i) = op_mul T (m (a + i)) (m (a + i))"
proof -
  have al: "may_alias a a len" by (simp add: may_alias_def)
  show ?thesis
    unfolding eltwiseMultiply_def
    using binaryOp_total [OF assms(1) al al assms(2), of "op_mul T" m] by blast
qed

theorem multiply_in_place_squares_witness:
  "valid_stream (\<lambda>n. rev [0..<n]) 3 \<and> (1::nat) < 3 \<and>
   (\<exists>m'. eltwiseMultiply int32_t 4 4 4 3 (\<lambda>n. rev [0..<n]) ((\<lambda>a. 1)(4 := 7, 5 := 6, 6 := 5)) = Inr m' \<and>
      m' 5 = 36)"
proof -
  have h1: "valid_stream (\<lambda>n. rev [0..<n]) 3" by (simp add: valid_stream_def list_all_iff)
  have h2: "(1::nat) < 3" by simp
  from multiply_in_place_squares [OF h1 h2, of int32_t 4 "(\<lambda>a. 1)(4 := 7, 5 := 6, 6 := 5)"] h1
  show ?thesis by (simp add: int32_t_def)
qed

subsection \<open>Running eltwiseAdd again\<close>

lemma binaryOp_total_eq:
  assumes "valid_stream stream len" "may_alias out in1 len" "may_alias out in2 len"
  shows "binaryOp out in1 in2 len (\<lambda>a b. Inr (g a b)) stream m =
     Inr (zip_result (\<lambda>a b. Inr (g a b)) out in1 in2 {..<len} m)"
  by (rule binaryOp_ok [OF assms]) simp

lemma zip_result_total_at:
  "i < len \<Longrightarrow>
   zip_result (\<lambda>a b. Inr (g a b)) out in1 in2 {..<len} m (out + i) = g (m (in1 + i)) (m (in2 + i))"
  by (simp add: zip_result_def)

lemma zip_result_apart:
  assumes "out + len \<le> inp \<or> inp + len \<le> out" "j < len"
  shows "zip_result f out in1 in2 {..<len} m (inp + j) = m (inp + j)"
  using assms by (auto simp: zip_result_def)

lemma zip_result_again:
  assumes "out + len \<le> in1 \<or> in1 + len \<le> out" "out + len \<le> in2 \<or> in2 + len \<le> out"
  shows "zip_result (\<lambda>a b. Inr (g a b)) out in1 in2 {..<len}
           (zip_result (\<lambda>a b. Inr (g a b)) out in1 in2 {..<len} m) =
         zip_result (\<lambda>a b. Inr (g a b)) out in1 in2 {..<len} m"
proof
  fix a
  let ?r = "zip_result (\<lambda>a b. Inr (g a b)) out in1 in2 {..<len} m"
  show "zip_result (\<lambda>a b. Inr (g a b)) out in1 in2 {..<len} ?r a = ?r a"
  proof (cases "out \<le> a \<and> a - out < len")
    case True
    then have j: "a - out < len" and a: "a = out + (a - out)" by simp_all
    have "zip_result (\<lambda>a b. Inr (g a b)) out in1 in2 {..<len} ?r (out + (a - out)) =
        g (?r (in1 + (a - out))) (?r (in2 + (a - out)))"
      by (rule zip_result_total_at [OF j])
    also have "\<dots> = g (m (in1 + (a - out))) (m (in2 + (a - out)))"
      by (simp add: zip_result_apart [OF assms(1) j] zip_result_apart [OF assms(2) j])
    also have "\<dots> = ?r (out + (a - out))"
      by (rule zip_result_total_at [OF j, symmetric])
    finally show ?thesis using a by simp
  next
    case False
    then have "a < out \<or> out + len \<le> a" by arith
    then show ?thesis by (rule zip_result_frame)
  qed
qed

text \<open>
  C7: eltwiseAdd is a pass without state. A run on any memory that holds the same input
  elements, under any order of the workers, completes with the same contents of the output
  buffer as the first run; and where the first run left the inputs unchanged (the output
  buffer is neither of them), running the call again on the memory it left changes
  nothing.
\<close>

theorem add_rerun_same_output:
  assumes "valid_stream stream len" "may_alias out in1 len" "may_alias out in2 len"
  shows "\<exists>m1. eltwiseAdd T out in1 in2 len stream m = Inr m1 \<and>
           (\<forall>m2 stream2.
              valid_stream stream2 len \<and>
              (\<forall>j<len. m2 (in1 + j) = m (in1 + j) \<and> m2 (in2 + j) = m (in2 + j)) \<longrightarrow>
              (\<exists>m2'. eltwiseAdd T out in1 in2 len stream2 m2 = Inr m2' \<and>
                 (\<forall>j<len. m2' (out + j) = m1 (out + j)))) \<and>
           (out \<noteq> in1 \<and> out \<noteq> in2 \<longrightarrow> eltwiseAdd T out in1 in2 len stream m1 = Inr m1)"
proof -
  let ?f = "\<lambda>a b. Inr (op_add T a b) :: fault + 'a"
  let ?r = "\<lambda>m. zip_result ?f out in1 in2 {..<len} m"
  have run: "eltwiseAdd T out in1 in2 len s2 m2 = Inr (?r m2)" if "valid_stream s2 len" for s2 m2
    unfolding eltwiseAdd_def by (rule binaryOp_total_eq [OF that assms(2,3)])
  have same: "\<exists>m2'. eltwiseAdd T out in1 in2 len s2 m2 = Inr m2' \<and>
      (\<forall>j<len. m2' (out + j) = ?r m (out + j))"
    if "valid_stream s2 len \<and>
        (\<forall>j<len. m2 (in1 + j) = m (in1 + j) \<and> m2 (in2 + j) = m (in2 + j))" for s2 m2
  proof -
    have "\<forall>j<len. ?r m2 (out + j) = ?r m (out + j)"
      using that by (simp add: zip_result_total_at)
    with run [of s2 m2] that show ?thesis by simp
  qed
  have again: "eltwiseAdd T out in1 in2 len stream (?r m) = Inr (?r m)"
    if "out \<noteq> in1 \<and> out \<noteq> in2"
  proof -
    from that assms(2,3)
    have "out + len \<le> in1 \<or> in1 + len \<le> out" "out + len \<le> in2 \<or> in2 + len \<le> out"
      by (simp_all add: may_alias_def)
    then have "?r (?r m) = ?r m" by (rule zip_result_again)
    with run [OF assms(1), of "?r m"] show ?thesis by simp
  qed
  from run [OF assms(1), of m] same again show ?thesis by blast
qed

theorem add_rerun_same_output_witness:
  "valid_stream (\<lambda>n. rev [0..<n]) 2 \<and> may_alias 4 0 2 \<and> may_alias 4 2 2 \<and>
   valid_stream (\<lambda>n. [0..<n]) 2 \<and>
   (\<exists>m1. eltwiseAdd int32_t 4 0 2 2 (\<lambda>n. rev [0..<n])
            ((\<lambda>a. 1)(0 := 7, 1 := 6, 2 := 2, 3 := 3)) = Inr m1 \<and>
      (\<exists>m2'. eltwiseAdd int32_t 4 0 2 2 (\<lambda>n. [0..<n])
            ((\<lambda>a. 8)(0 := 7, 1 := 6, 2 := 2, 3 := 3)) = Inr m2' \<and>
          m2' 4 = m1 4 \<and> m2' 5 = m1 5) \<and>
      eltwiseAdd int32_t 4 0 2 2 (\<lambda>n. rev [0..<n]) m1 = Inr m1)"
proof -
  let ?m = "(\<lambda>a. 1)(0 := 7, 1 := 6, 2 := 2, 3 := 3) :: 32 word mem"
  let ?m2 = "(\<lambda>a. 8)(0 := 7, 1 := 6, 2 := 2, 3 := 3) :: 32 word mem"
  have h1: "valid_stream (\<lambda>n. rev [0..<n]) 2" by (simp add: valid_stream_def list_all_iff)
  have h2: "may_alias 4 0 2" by (simp add: may_alias_def)
  have h3: "may_alias 4 2 2" by (simp add: may_alias_def)
  have h4: "valid_stream (\<lambda>n. [0..<n]) 2" by (simp add: valid_stream_def list_all_iff)
  have two: "j = 0 \<or> j = 1" if "j < 2" for j :: nat using that by arith
  have h5: "\<forall>j<2. ?m2 (0 + j) = ?m (0 + j) \<and> ?m2 (2 + j) = ?m (2 + j)"
    using two by auto
  from add_rerun_same_output [where T = int32_t and m = ?m, OF h1 h2 h3]
  obtain m1 where m1: "eltwiseAdd int32_t 4 0 2 2 (\<lambda>n. rev [0..<n]) ?m = Inr m1"
    and r: "\<And>m2 stream2. valid_stream stream2 2 \<and>
              (\<forall>j<2. m2 (0 + j) = ?m (0 + j) \<and> m2 (2 + j) = ?m (2 + j)) \<Longrightarrow>
              (\<exists>m2'. eltwiseAdd int32_t 4 0 2 2 stream2 m2 = Inr m2' \<and>
                 (\<forall>j<2. m2' (4 + j) = m1 (4 + j)))"
    and a: "eltwiseAdd int32_t 4 0 2 2 (\<lambda>n. rev [0..<n]) m1 = Inr m1"
    by auto
  from r [of "\<lambda>n. [0..<n]" ?m2] h4 h5
  obtain m2' where m2: "eltwiseAdd int32_t 4 0 2 2 (\<lambda>n. [0..<n]) ?m2 = Inr m2'"
    and e: "\<forall>j<2. m2' (4 + j) = m1 (4 + j)"
    by blast
  have "m2' 4 = m1 4" "m2' 5 = m1 5"
    using e [rule_format, of 0] e [rule_format, of 1] by simp_all
  with h1 h2 h3 h4 m1 m2 a show ?thesis by blast
qed

subsection \<open>An output element depends on its own index only\<close>








subsection \<open>Swapping the inputs of eltwiseAdd and eltwiseMultiply\<close>

lemma binaryOp_swap:
  assumes "\<forall>a b. f a b = f b a"
  shows "binaryOp out in1 in2 len f stream = binaryOp out in2 in1 len f stream"
proof -
  have "zip_worker f out in1 in2 = zip_worker f out in2 in1"
    using assms by (auto simp: zip_worker_def fun_eq_iff)
  then show ?thesis unfolding binaryOp_def by (intro ext) (simp only:)
qed

lemma xadd_commute: "xadd a b = xadd b a"
  by (cases a; cases b) (simp_all add: add.commute)

lemma xmul_commute: "xmul a b = xmul b a"
  by (cases a; cases b) (simp_all add: mult.commute)

text \<open>
  C9: eltwiseAdd and eltwiseMultiply are symmetric in their two input buffers. For an
  element type whose \<open>+\<close> (whose \<open>*\<close>) is commutative, the call with \<open>in1\<close> and \<open>in2\<close>
  exchanged has the same outcome and leaves the same memory, hence the same output
  buffer; the integer and the floating element type are such types.
\<close>

theorem add_multiply_commute:
  "((\<forall>a b. op_add T a b = op_add T b a) \<longrightarrow>
      eltwiseAdd T out in1 in2 len stream m = eltwiseAdd T out in2 in1 len stream m) \<and>
   ((\<forall>a b. op_mul T a b = op_mul T b a) \<longrightarrow>
      eltwiseMultiply T out in1 in2 len stream m = eltwiseMultiply T out in2 in1 len stream m) \<and>
   eltwiseAdd int32_t out in1 in2 len stream mi = eltwiseAdd int32_t out in2 in1 len stream mi \<and>
   eltwiseMultiply int32_t out in1 in2 len stream mi =
     eltwiseMultiply int32_t out in2 in1 len stream mi \<and>
   eltwiseAdd float_t out in1 in2 len stream mf = eltwiseAdd float_t out in2 in1 len stream mf \<and>
   eltwiseMultiply float_t out in1 in2 len stream mf =
     eltwiseMultiply float_t out in2 in1 len stream mf"
proof (intro conjI impI)
  assume "\<forall>a b. op_add T a b = op_add T b a"
  then have "\<forall>a b. (Inr (op_add T a b) :: fault + 'a) = Inr (op_add T b a)" by simp
  then show "eltwiseAdd T out in1 in2 len stream m = eltwiseAdd T out in2 in1 len stream m"
    unfolding eltwiseAdd_def by (simp add: binaryOp_swap)
next
  assume "\<forall>a b. op_mul T a b = op_mul T b a"
  then have "\<forall>a b. (Inr (op_mul T a b) :: fault + 'a) = Inr (op_mul T b a)" by simp
  then show "eltwiseMultiply T out in1 in2 len stream m =
      eltwiseMultiply T out in2 in1 len stream m"
    unfolding eltwiseMultiply_def by (simp add: binaryOp_swap)
next
  show "eltwiseAdd int32_t out in1 in2 len stream mi = eltwiseAdd int32_t out in2 in1 len stream mi"
    unfolding eltwiseAdd_def by (simp add: binaryOp_swap int32_t_def add.commute)
  show "eltwiseMultiply int32_t out in1 in2 len stream mi =
      eltwiseMultiply int32_t out in2 in1 len stream mi"
    unfolding eltwiseMultiply_def by (simp add: binaryOp_swap int32_t_def mult.commute)
  show "eltwiseAdd float_t out in1 in2 len stream mf = eltwiseAdd float_t out in2 in1 len stream mf"
    unfolding eltwiseAdd_def by (simp add: binaryOp_swap float_t_def xadd_commute)
  show "eltwiseMultiply float_t out in1 in2 len stream mf =
      eltwiseMultiply float_t out in2 in1 len stream mf"
    unfolding eltwiseMultiply_def by (simp add: binaryOp_swap float_t_def xmul_commute)
qed

theorem add_multiply_commute_witness:
  "eltwiseAdd int32_t 4 0 2 2 (\<lambda>n. rev [0..<n]) ((\<lambda>a. 1)(0 := 7, 1 := 6, 2 := 2, 3 := 3)) =
     eltwiseAdd int32_t 4 2 0 2 (\<lambda>n. rev [0..<n]) ((\<lambda>a. 1)(0 := 7, 1 := 6, 2 := 2, 3 := 3)) \<and>
   eltwiseMultiply int32_t 4 0 2 2 (\<lambda>n. rev [0..<n]) ((\<lambda>a. 1)(0 := 7, 1 := 6, 2 := 2, 3 := 3)) =
     eltwiseMultiply int32_t 4 2 0 2 (\<lambda>n. rev [0..<n]) ((\<lambda>a. 1)(0 := 7, 1 := 6, 2 := 2, 3 := 3))"
proof -
  let ?m = "(\<lambda>a. 1)(0 := 7, 1 := 6, 2 := 2, 3 := 3) :: 32 word mem"
  have c1: "\<forall>a b. op_add int32_t a b = op_add int32_t b a"
    by (simp add: int32_t_def add.commute)
  have c2: "\<forall>a b. op_mul int32_t a b = op_mul int32_t b a"
    by (simp add: int32_t_def mult.commute)
  note w = add_multiply_commute [where T = int32_t and m = ?m and out = 4 and ?in1.0 = 0
      and ?in2.0 = 2 and len = 2 and stream = "\<lambda>n. rev [0..<n]"]
  from w [THEN conjunct1] c1 w [THEN conjunct2, THEN conjunct1] c2
  show ?thesis by blast
qed

subsection \<open>Scalar operations with the identity\<close>

lemma xadd_zero: "xadd x (Num 0) = x"
  by (cases x) simp_all

lemma xmul_one: "xmul x (Num 1) = x"
  by (cases x) simp_all

text \<open>
  C10: scalarAdd with a scalar that is an identity of the element type's addition, and
  scalarMultiply with one that is an identity of its multiplication, complete with
  \<open>out[i] = in[i]\<close> at every index \<open>i < len\<close>; \<open>0\<close> and \<open>1\<close> are these scalars for
  the integer and for the floating element type.
\<close>

theorem scalar_identity:
  assumes "valid_stream stream len" "may_alias out inp len" "i < len"
  shows "((\<forall>x. op_add T x z = x) \<longrightarrow>
          (\<exists>m'. scalarAdd T out inp z len stream m = Inr m' \<and> m' (out + i) = m (inp + i))) \<and>
         ((\<forall>x. op_mul T x u = x) \<longrightarrow>
          (\<exists>m'. scalarMultiply T out inp u len stream m = Inr m' \<and>
             m' (out + i) = m (inp + i))) \<and>
         (\<exists>m'. scalarAdd int32_t out inp 0 len stream mi = Inr m' \<and>
            m' (out + i) = mi (inp + i)) \<and>
         (\<exists>m'. scalarMultiply int32_t out inp 1 len stream mi = Inr m' \<and>
            m' (out + i) = mi (inp + i)) \<and>
         (\<exists>m'. scalarAdd float_t out inp (Num 0) len stream mf = Inr m' \<and>
            m' (out + i) = mf (inp + i)) \<and>
         (\<exists>m'. scalarMultiply float_t out inp (Num 1) len stream mf = Inr m' \<and>
            m' (out + i) = mf (inp + i))"
proof (intro conjI impI)
  assume "\<forall>x. op_add T x z = x"
  with unaryOp_total [OF assms, of "\<lambda>x. op_add T x z" m]
  show "\<exists>m'. scalarAdd T out inp z len stream m = Inr m' \<and> m' (out + i) = m (inp + i)"
    unfolding scalarAdd_def by auto
next
  assume "\<forall>x. op_mul T x u = x"
  with unaryOp_total [OF assms, of "\<lambda>x. op_mul T x u" m]
  show "\<exists>m'. scalarMultiply T out inp u len stream m = Inr m' \<and> m' (out + i) = m (inp + i)"
    unfolding scalarMultiply_def by auto
next
  from unaryOp_total [OF assms, of "\<lambda>x. op_add int32_t x 0" mi]
  show "\<exists>m'. scalarAdd int32_t out inp 0 len stream mi = Inr m' \<and> m' (out + i) = mi (inp + i)"
    unfolding scalarAdd_def by (auto simp: int32_t_def)
  from unaryOp_total [OF assms, of "\<lambda>x. op_mul int32_t x 1" mi]
  show "\<exists>m'. scalarMultiply int32_t out inp 1 len stream mi = Inr m' \<and>
      m' (out + i) = mi (inp + i)"
    unfolding scalarMultiply_def by (auto simp: int32_t_def)
  from unaryOp_total [OF assms, of "\<lambda>x. op_add float_t x (Num 0)" mf]
  show "\<exists>m'. scalarAdd float_t out inp (Num 0) len stream mf = Inr m' \<and>
      m' (out + i) = mf (inp + i)"
    unfolding scalarAdd_def by (auto simp: float_t_def xadd_zero)
  from unaryOp_total [OF assms, of "\<lambda>x. op_mul float_t x (Num 1)" mf]
  show "\<exists>m'. scalarMultiply float_t out inp (Num 1) len stream mf = Inr m' \<and>
      m' (out + i) = mf (inp + i)"
    unfolding scalarMultiply_def by (auto simp: float_t_def xmul_one)
qed

theorem scalar_identity_witness:
  "valid_stream (\<lambda>n. rev [0..<n]) 3 \<and> may_alias 8 4 3 \<and> (2::nat) < 3 \<and>
   (\<exists>m'. scalarAdd int32_t 8 4 0 3 (\<lambda>n. rev [0..<n]) ((\<lambda>a. 1)(4 := 7, 5 := 6, 6 := 5)) = Inr m' \<and>
      m' 10 = 5) \<and>
   (\<exists>m'. scalarMultiply int32_t 8 4 1 3 (\<lambda>n. rev [0..<n]) ((\<lambda>a. 1)(4 := 7, 5 := 6, 6 := 5)) = Inr m' \<and>
      m' 10 = 5)"
proof -
  let ?m = "(\<lambda>a. 1)(4 := 7, 5 := 6, 6 := 5) :: 32 word mem"
  have h1: "valid_stream (\<lambda>n. rev [0..<n]) 3" by (simp add: valid_stream_def list_all_iff)
  have h2: "may_alias 8 4 3" by (simp add: may_alias_def)
  have h3: "(2::nat) < 3" by simp
  have z: "\<forall>x. op_add int32_t x 0 = x" by (simp add: int32_t_def)
  have u: "\<forall>x. op_mul int32_t x 1 = x" by (simp add: int32_t_def)
  note w = scalar_identity [where T = int32_t and m = ?m and z = 0 and u = 1, OF h1 h2 h3]
  have a: "\<exists>m'. scalarAdd int32_t 8 4 0 3 (\<lambda>n. rev [0..<n]) ?m = Inr m' \<and> m' 10 = 5"
    using w [THEN conjunct1] z by simp
  have b: "\<exists>m'. scalarMultiply int32_t 8 4 1 3 (\<lambda>n. rev [0..<n]) ?m = Inr m' \<and> m' 10 = 5"
    using w [THEN conjunct2, THEN conjunct1] u by simp
  from h1 h2 h3 a b show ?thesis by simp
qed

end
